theory Spec2Isabelle
  imports Main
begin

section \<open>Values, props and JSX descriptions\<close>

text \<open>
  The two components are JavaScript functions that take a props object and return a JSX
  description. A prop of the examples is a string; \<open>Obj\<close> stands for a plain object, the
  one kind of value that cannot be rendered as a child. A props object is a map from
  property names; a property that was not passed reads as \<open>undefined\<close>, which is
  \<open>None\<close> here.
\<close>

datatype jsval = Str string | Obj

type_synonym props = "string \<rightharpoonup> jsval"

text \<open>
  A JSX description: literal text, an embedded expression \<open>{e}\<close> with the value it
  evaluated to, or an element with a tag and children.
\<close>

datatype jsx = JsxText string | JsxExpr "jsval option" | JsxElement string "jsx list"

subsection \<open>The components\<close>

text \<open>
  \<^verbatim>\<open>
  export default function HelloWorld() {
    return <h1>Hello World!</h1>
  }
  \<close>
  The function declares no parameter: the props object it is called with is ignored.
\<close>

definition HelloWorld :: "props \<Rightarrow> jsx" where
  "HelloWorld p = JsxElement ''h1'' [JsxText ''Hello World!'']"

text \<open>
  \<^verbatim>\<open>
  export default function HelloPerson({ name }) {
    return <h1>Hello {name}!</h1>
  }
  \<close>
  The children of the heading are the text \<open>Hello\<close> followed by one space, the value of
  the property \<open>name\<close>, and the text \<open>!\<close>.
\<close>

definition HelloPerson :: "props \<Rightarrow> jsx" where
  "HelloPerson p = JsxElement ''h1'' [JsxText ''Hello '', JsxExpr (p ''name''), JsxText ''!'']"

section \<open>Rendered output\<close>

text \<open>
  The rendered output is a tree of elements and text nodes. Rendering a description walks
  it: literal text and a non-empty string value become a text node, \<open>undefined\<close> and
  the empty string render nothing, and a plain object as a child is an error.
\<close>

datatype node = Text string | Element string "node list"

datatype error = InvalidChildError | NotFoundError | AmbiguousMatchError

fun render_jsx :: "jsx \<Rightarrow> error + node list"
  and render_children :: "jsx list \<Rightarrow> error + node list" where
  "render_jsx (JsxText s) = Inr [Text s]"
| "render_jsx (JsxExpr None) = Inr []"
| "render_jsx (JsxExpr (Some (Str s))) = Inr (if s = [] then [] else [Text s])"
| "render_jsx (JsxExpr (Some Obj)) = Inl InvalidChildError"
| "render_jsx (JsxElement tag kids) =
     (case render_children kids of
        Inl e \<Rightarrow> Inl e
      | Inr ns \<Rightarrow> Inr [Element tag ns])"
| "render_children [] = Inr []"
| "render_children (k # ks) =
     (case render_jsx k of
        Inl e \<Rightarrow> Inl e
      | Inr ns \<Rightarrow>
          (case render_children ks of
             Inl e \<Rightarrow> Inl e
           | Inr ms \<Rightarrow> Inr (ns @ ms)))"

text \<open>The visible text of a tree: the text of its text nodes, in document order.\<close>

fun text_content :: "node \<Rightarrow> string"
  and text_contents :: "node list \<Rightarrow> string" where
  "text_content (Text s) = s"
| "text_content (Element tag kids) = text_contents kids"
| "text_contents [] = []"
| "text_contents (n # ns) = text_content n @ text_contents ns"

text \<open>What a render shows: the visible text of the rendered trees, or the render's error.\<close>

definition rendered_text :: "jsx \<Rightarrow> error + string" where
  "rendered_text j = (case render_jsx j of Inl e \<Rightarrow> Inl e | Inr ns \<Rightarrow> Inr (text_contents ns))"

text \<open>Counting the occurrences of a string in a text, one for each position it starts at.\<close>

fun starts_with :: "string \<Rightarrow> string \<Rightarrow> bool" where
  "starts_with [] t = True"
| "starts_with (c # cs) [] = False"
| "starts_with (c # cs) (d # ds) = (c = d \<and> starts_with cs ds)"

fun occurrences :: "string \<Rightarrow> string \<Rightarrow> nat" where
  "occurrences n [] = (if n = [] then 1 else 0)"
| "occurrences n (c # cs) = (if starts_with n (c # cs) then 1 else 0) + occurrences n cs"

section \<open>The mount and query harness\<close>

text \<open>
  The tests call \<open>render\<close>, \<open>screen.getByText\<close> and \<open>cleanup\<close> of the testing library,
  whose code is not part of the repository's sources. The definitions of this section
  follow the interface the specification gives for them.
\<close>

type_synonym handle = nat

record document =
  mounted :: "(handle \<times> node list) list"
  next_handle :: handle

definition empty_document :: document where
  "empty_document = \<lparr>mounted = [], next_handle = 0\<rparr>"

text \<open>Handles are handed out in increasing order: a mounted tree has a handle already used.\<close>

definition wf_document :: "document \<Rightarrow> bool" where
  "wf_document d = list_all (\<lambda>e. fst e < next_handle d) (mounted d)"

text \<open>
  Modelled from the spec: \<open>mount(output_description) -> QueryHandle\<close> of the harness, which
  is missing from the sources: it attaches the description to the simulated document and
  returns a handle. An error of the render propagates and mounts nothing.
\<close>

definition mount :: "jsx \<Rightarrow> document \<Rightarrow> error + handle \<times> document" where
  "mount j d =
     (case render_jsx j of
        Inl e \<Rightarrow> Inl e
      | Inr ns \<Rightarrow>
          Inr (next_handle d,
               d\<lparr>mounted := mounted d @ [(next_handle d, ns)],
                 next_handle := Suc (next_handle d)\<rparr>))"

text \<open>
  Modelled from the spec: \<open>unmount(handle)\<close> of the harness, which is missing from the
  sources: it detaches the tree of the handle from the simulated document.
\<close>

definition unmount :: "handle \<Rightarrow> document \<Rightarrow> document" where
  "unmount h d = d\<lparr>mounted := filter (\<lambda>e. fst e \<noteq> h) (mounted d)\<rparr>"

text \<open>
  Modelled from the spec: \<open>cleanup\<close> of the harness, which is missing from the sources: it
  calls \<open>unmount\<close> on every tree that is mounted.
\<close>

definition cleanup :: "document \<Rightarrow> document" where
  "cleanup d = fold unmount (map fst (mounted d)) d"

subsection \<open>Text patterns\<close>

text \<open>
  A pattern is an exact string or a regular expression, with or without the flag that
  ignores case. A regular expression matches when it matches somewhere in the text, so a
  literal with the flag is a case-insensitive substring match.
\<close>

datatype regex = Eps | Chr char | Opt regex | Seq regex regex | Alt regex regex

datatype pattern = Exact string | Regex regex bool

fun literal :: "string \<Rightarrow> regex" where
  "literal [] = Eps"
| "literal (c # cs) = Seq (Chr c) (literal cs)"

text \<open>The texts left over after the expression has matched a prefix of the text.\<close>

fun remainders :: "regex \<Rightarrow> string \<Rightarrow> string list" where
  "remainders Eps s = [s]"
| "remainders (Chr c) [] = []"
| "remainders (Chr c) (x # xs) = (if x = c then [xs] else [])"
| "remainders (Opt r) s = remainders r s @ [s]"
| "remainders (Seq a b) s = concat (map (remainders b) (remainders a s))"
| "remainders (Alt a b) s = remainders a s @ remainders b s"

fun found_in :: "regex \<Rightarrow> string \<Rightarrow> bool" where
  "found_in r [] = (remainders r [] \<noteq> [])"
| "found_in r (c # cs) = (remainders r (c # cs) \<noteq> [] \<or> found_in r cs)"

definition lower_char :: "char \<Rightarrow> char" where
  "lower_char c =
     (case map_of (zip ''ABCDEFGHIJKLMNOPQRSTUVWXYZ'' ''abcdefghijklmnopqrstuvwxyz'') c of
        None \<Rightarrow> c
      | Some l \<Rightarrow> l)"

fun lower_regex :: "regex \<Rightarrow> regex" where
  "lower_regex Eps = Eps"
| "lower_regex (Chr c) = Chr (lower_char c)"
| "lower_regex (Opt r) = Opt (lower_regex r)"
| "lower_regex (Seq a b) = Seq (lower_regex a) (lower_regex b)"
| "lower_regex (Alt a b) = Alt (lower_regex a) (lower_regex b)"

fun text_matches :: "pattern \<Rightarrow> string \<Rightarrow> bool" where
  "text_matches (Exact s) t = (t = s)"
| "text_matches (Regex r False) t = found_in r t"
| "text_matches (Regex r True) t = found_in (lower_regex r) (map lower_char t)"

subsection \<open>Queries\<close>

text \<open>
  A query looks at the elements of the tree of a handle; the text of an element is the
  text of its own text nodes.
\<close>

fun elements :: "node \<Rightarrow> node list"
  and elements_list :: "node list \<Rightarrow> node list" where
  "elements (Text s) = []"
| "elements (Element tag kids) = Element tag kids # elements_list kids"
| "elements_list [] = []"
| "elements_list (n # ns) = elements n @ elements_list ns"

fun own_texts :: "node list \<Rightarrow> string" where
  "own_texts [] = []"
| "own_texts (Text s # ns) = s @ own_texts ns"
| "own_texts (Element tag kids # ns) = own_texts ns"

fun own_text :: "node \<Rightarrow> string" where
  "own_text (Text s) = s"
| "own_text (Element tag kids) = own_texts kids"

fun nodes_of :: "handle \<Rightarrow> (handle \<times> node list) list \<Rightarrow> node list" where
  "nodes_of h [] = []"
| "nodes_of h ((k, ns) # es) = (if k = h then elements_list ns else []) @ nodes_of h es"

definition matching_nodes :: "pattern \<Rightarrow> handle \<Rightarrow> document \<Rightarrow> node list" where
  "matching_nodes p h d = filter (\<lambda>n. text_matches p (own_text n)) (nodes_of h (mounted d))"

text \<open>
  Modelled from the spec: \<open>findByText(pattern) -> Node\<close> of the harness, which is missing
  from the sources: it fails with \<open>NotFoundError\<close> if zero nodes match and with
  \<open>AmbiguousMatchError\<close> if more than one does.
\<close>

definition findByText :: "pattern \<Rightarrow> handle \<Rightarrow> document \<Rightarrow> error + node" where
  "findByText p h d =
     (case matching_nodes p h d of
        [] \<Rightarrow> Inl NotFoundError
      | [n] \<Rightarrow> Inr n
      | n # m # ms \<Rightarrow> Inl AmbiguousMatchError)"

subsection \<open>The hook that runs after each test\<close>

text \<open>
  \<^verbatim>\<open>
  afterEach(() => {
      cleanup()
  })
  \<close>
  A test changes the simulated document and passes or fails. The runner calls the hook
  after the test, whatever its outcome.
\<close>

datatype outcome = Passed | Failed error

type_synonym test = "document \<Rightarrow> outcome \<times> document"

definition afterEach_hook :: "document \<Rightarrow> document" where
  "afterEach_hook d = cleanup d"

definition run_test :: "test \<Rightarrow> document \<Rightarrow> outcome \<times> document" where
  "run_test t d = (case t d of (r, d') \<Rightarrow> (r, afterEach_hook d'))"

subsection \<open>The repository's tests\<close>

text \<open>
  \<^verbatim>\<open>
  it("should render Hello World!", async () => {
      render(<HelloWorld />)
      const helloHeading = screen.getByText("Hello World!")
      expect(helloHeading).toBeInTheDocument();
  })
  \<close>
  A test fails with the error of the first call that fails, and passes otherwise.
\<close>

definition should_render_Hello_World :: test where
  "should_render_Hello_World d =
     (case mount (HelloWorld Map.empty) d of
        Inl e \<Rightarrow> (Failed e, d)
      | Inr (h, d') \<Rightarrow>
          (case findByText (Exact ''Hello World!'') h d' of
             Inl e \<Rightarrow> (Failed e, d')
           | Inr n \<Rightarrow> (Passed, d')))"

text \<open>The pattern \<open>/Hello,? NAME!/\<close> of the scenarios: the comma is optional.\<close>

definition greeting_regex :: "string \<Rightarrow> regex" where
  "greeting_regex n = Seq (literal ''Hello'') (Seq (Opt (Chr CHR '','')) (literal ('' '' @ n @ ''!'')))"

section \<open>The static greeting\<close>

lemma render_HelloWorld:
  "render_jsx (HelloWorld p) = Inr [Element ''h1'' [Text ''Hello World!'']]"
  by (simp add: HelloWorld_def)

text \<open>
  C1: rendering the HelloWorld component, whatever props it is given (in particular with
  no subject name), succeeds and yields one tree whose visible text is exactly
  \<open>Hello World!\<close>, nothing more and nothing less.
\<close>

theorem HelloWorld_text:
  "rendered_text (HelloWorld p) = Inr ''Hello World!'' \<and>
   (\<exists>t. render_jsx (HelloWorld p) = Inr [t] \<and> text_content t = ''Hello World!'')"
  by (simp add: HelloWorld_def rendered_text_def)

section \<open>The greeting with a name\<close>

lemma render_HelloPerson_Str:
  "p ''name'' = Some (Str n) \<Longrightarrow>
   render_jsx (HelloPerson p) =
     Inr [Element ''h1'' (Text ''Hello '' # (if n = [] then [] else [Text n]) @ [Text ''!''])]"
  by (simp add: HelloPerson_def)

lemma render_HelloPerson_unset:
  "p ''name'' = None \<Longrightarrow> render_jsx (HelloPerson p) = Inr [Element ''h1'' [Text ''Hello '', Text ''!'']]"
  by (simp add: HelloPerson_def)

lemma render_HelloPerson_Obj:
  "p ''name'' = Some Obj \<Longrightarrow> render_jsx (HelloPerson p) = Inl InvalidChildError"
  by (simp add: HelloPerson_def)

lemma rendered_text_HelloPerson:
  "p ''name'' = Some (Str n) \<Longrightarrow> rendered_text (HelloPerson p) = Inr (''Hello '' @ n @ ''!'')"
  by (simp add: rendered_text_def render_HelloPerson_Str)

subsection \<open>Occurrences of the name in the greeting\<close>

lemma starts_with_length: "starts_with n t \<Longrightarrow> length n \<le> length t"
  by (induction n t rule: starts_with.induct) auto

lemma starts_with_self_append: "starts_with n (n @ t)"
  by (induction n) auto

lemma starts_with_same_length: "length n = length t \<Longrightarrow> starts_with n t \<longleftrightarrow> n = t"
  by (induction n t rule: starts_with.induct) auto

lemma starts_with_iff: "starts_with s t \<longleftrightarrow> (\<exists>v. t = s @ v)"
  by (induction s t rule: starts_with.induct) auto

lemma occurrences_short: "length t < length n \<Longrightarrow> occurrences n t = 0"
proof (induction t)
  case Nil
  then show ?case by auto
next
  case (Cons c cs)
  have "\<not> starts_with n (c # cs)"
    using Cons.prems starts_with_length by fastforce
  with Cons show ?case by simp
qed

lemma occurrences_skip:
  "n \<noteq> [] \<Longrightarrow> hd n \<notin> set pre \<Longrightarrow> occurrences n (pre @ t) = occurrences n t"
proof (induction pre)
  case Nil
  then show ?case by simp
next
  case (Cons c cs)
  then have "\<not> starts_with n (c # cs @ t)"
    by (cases n) auto
  with Cons show ?case by simp
qed

lemma occurrences_at_least_one: "n \<noteq> [] \<Longrightarrow> 1 \<le> occurrences n (pre @ n @ post)"
proof (induction pre)
  case Nil
  then obtain a m where n: "n = a # m" by (cases n) auto
  have "starts_with n (n @ post)" by (rule starts_with_self_append)
  then show ?case using n by simp
next
  case (Cons c cs)
  then show ?case by simp
qed

lemma occurrences_name_bang:
  assumes "n \<noteq> []" "last n \<noteq> CHR ''!''"
  shows "occurrences n (n @ ''!'') = 1"
proof -
  obtain a m where n: "n = a # m" using assms(1) by (cases n) auto
  have len: "length (m @ ''!'') = length n" using n by simp
  have "m @ ''!'' \<noteq> n" using assms(2) n
    by (metis last_snoc)
  then have no: "\<not> starts_with n (m @ ''!'')"
    using starts_with_same_length [of n "m @ ''!''"] len by auto
  have "occurrences n (m @ ''!'') = 0"
  proof (cases m)
    case Nil
    then show ?thesis using n no by simp
  next
    case (Cons b k)
    have "occurrences n (k @ ''!'') = 0"
      by (rule occurrences_short) (simp add: n Cons)
    then show ?thesis using no Cons by simp
  qed
  moreover have "starts_with n (n @ ''!'')" by (rule starts_with_self_append)
  ultimately show ?thesis using n by simp
qed

lemma occurrences_template:
  assumes "n \<noteq> []" "hd n \<notin> set ''Hello ''" "last n \<noteq> CHR ''!''"
  shows "occurrences n (''Hello '' @ n @ ''!'') = 1"
  using occurrences_skip [OF assms(1) assms(2), of "n @ ''!''"] occurrences_name_bang [OF assms(1) assms(3)]
  by simp

text \<open>
  The text of the greeting does not always contain the name exactly once: the name
  \<open>l\<close> occurs three times in \<open>Hello l!\<close>, twice of them inside the word \<open>Hello\<close>.
\<close>

theorem HelloPerson_one_occurrence_counterexample:
  "rendered_text (HelloPerson (Map.empty(''name'' \<mapsto> Str ''l''))) = Inr ''Hello l!'' \<and>
   occurrences ''l'' ''Hello l!'' = 3"
  by (simp add: rendered_text_def HelloPerson_def)

text \<open>
  C2: the name is interpolated once. For every non-empty string \<open>n\<close>, rendering HelloPerson with the name
  \<open>n\<close> shows exactly the text \<open>Hello\<close>, a space, \<open>n\<close> and \<open>!\<close>: the name is put
  once between the fixed prefix and the fixed suffix, and nothing else is shown. The name
  therefore occurs in the text at least once, and exactly once when its first character
  is none of the prefix and its last character is not \<open>!\<close>.
\<close>

theorem HelloPerson_name_interpolated:
  assumes "p ''name'' = Some (Str n)" "n \<noteq> []"
  shows "rendered_text (HelloPerson p) = Inr (''Hello '' @ n @ ''!'') \<and>
         1 \<le> occurrences n (''Hello '' @ n @ ''!'') \<and>
         (hd n \<notin> set ''Hello '' \<and> last n \<noteq> CHR ''!'' \<longrightarrow>
            occurrences n (''Hello '' @ n @ ''!'') = 1)"
  using assms rendered_text_HelloPerson [of p n] occurrences_at_least_one [of n "''Hello ''" "''!''"]
    occurrences_template [of n]
  by blast

theorem HelloPerson_name_interpolated_witness:
  "rendered_text (HelloPerson (Map.empty(''name'' \<mapsto> Str ''Alice''))) = Inr ''Hello Alice!'' \<and>
   occurrences ''Alice'' ''Hello Alice!'' = 1"
  using HelloPerson_name_interpolated [of "Map.empty(''name'' \<mapsto> Str ''Alice'')" "''Alice''"]
  by simp




text \<open>
  C6: for every request of the declared domain (the name unset, or a non-empty string)
  the render of either component raises no error: it returns one tree.
\<close>

theorem render_total_on_domain:
  assumes "p ''name'' = None \<or> (\<exists>n. p ''name'' = Some (Str n) \<and> n \<noteq> [])"
  shows "(\<exists>t. render_jsx (HelloWorld p) = Inr [t]) \<and> (\<exists>t. render_jsx (HelloPerson p) = Inr [t])"
  using assms by (auto simp: HelloWorld_def HelloPerson_def)

theorem render_total_on_domain_witness:
  "(\<exists>t. render_jsx (HelloWorld Map.empty) = Inr [t]) \<and>
   (\<exists>t. render_jsx (HelloPerson (Map.empty(''name'' \<mapsto> Str ''Bob''))) = Inr [t])"
  using render_total_on_domain [of Map.empty]
    render_total_on_domain [of "Map.empty(''name'' \<mapsto> Str ''Bob'')"]
  by simp

text \<open>
  C9: the rendered output is a function of the request's name alone: two props objects
  that agree on the name render to the same output, whatever else they hold, and nothing
  but the props object is read. HelloWorld does not even read the name.
\<close>

theorem render_depends_on_name_only:
  assumes "p ''name'' = q ''name''"
  shows "render_jsx (HelloPerson p) = render_jsx (HelloPerson q) \<and>
         render_jsx (HelloWorld p) = render_jsx (HelloWorld q)"
  using assms by (simp add: HelloPerson_def HelloWorld_def)

theorem render_depends_on_name_only_witness:
  "render_jsx (HelloPerson (Map.empty(''name'' \<mapsto> Str ''Bob'', ''title'' \<mapsto> Str ''Dr'')))
     = render_jsx (HelloPerson (Map.empty(''name'' \<mapsto> Str ''Bob''))) \<and>
   render_jsx (HelloWorld (Map.empty(''name'' \<mapsto> Str ''Bob'', ''title'' \<mapsto> Str ''Dr'')))
     = render_jsx (HelloWorld (Map.empty(''name'' \<mapsto> Str ''Bob'')))"
  using render_depends_on_name_only
    [of "Map.empty(''name'' \<mapsto> Str ''Bob'', ''title'' \<mapsto> Str ''Dr'')" "Map.empty(''name'' \<mapsto> Str ''Bob'')"]
  by simp

text \<open>
  C10: HelloPerson renders every string without error, the empty one too, and shows the
  prefix, the string and \<open>!\<close>; for the empty string nothing stands between the prefix
  \<open>Hello\<close> with its space and the final \<open>!\<close>.
\<close>

theorem HelloPerson_total_on_strings:
  assumes "p ''name'' = Some (Str s)"
  shows "(\<exists>t. render_jsx (HelloPerson p) = Inr [t] \<and> text_content t = ''Hello '' @ s @ ''!'') \<and>
         (s = [] \<longrightarrow>
            render_jsx (HelloPerson p) = Inr [Element ''h1'' [Text ''Hello '', Text ''!'']] \<and>
            rendered_text (HelloPerson p) = Inr ''Hello !'')"
  using assms by (simp add: render_HelloPerson_Str rendered_text_def)

theorem HelloPerson_total_on_strings_witness:
  "render_jsx (HelloPerson (Map.empty(''name'' \<mapsto> Str ''''))) =
     Inr [Element ''h1'' [Text ''Hello '', Text ''!'']] \<and>
   rendered_text (HelloPerson (Map.empty(''name'' \<mapsto> Str ''''))) = Inr ''Hello !''"
  using HelloPerson_total_on_strings [of "Map.empty(''name'' \<mapsto> Str '''')" "''''"]
  by simp

section \<open>Queries by text\<close>

lemma remainders_literal:
  "remainders (literal s) t = (if starts_with s t then [drop (length s) t] else [])"
proof (induction s arbitrary: t)
  case Nil
  then show ?case by simp
next
  case (Cons c cs)
  then show ?case by (cases t) auto
qed

lemma found_in_iff: "found_in r t \<longleftrightarrow> (\<exists>u v. t = u @ v \<and> remainders r v \<noteq> [])"
proof (induction t)
  case Nil
  then show ?case by simp
next
  case (Cons c cs)
  note IH = Cons.IH
  show ?case
  proof
    assume "found_in r (c # cs)"
    then consider "remainders r (c # cs) \<noteq> []" | "found_in r cs" by auto
    then show "\<exists>u v. c # cs = u @ v \<and> remainders r v \<noteq> []"
    proof cases
      case 1
      then have "c # cs = [] @ (c # cs) \<and> remainders r (c # cs) \<noteq> []" by simp
      then show ?thesis by blast
    next
      case 2
      then obtain u v where "cs = u @ v" "remainders r v \<noteq> []" using IH by auto
      then have "c # cs = (c # u) @ v \<and> remainders r v \<noteq> []" by simp
      then show ?thesis by blast
    qed
  next
    assume "\<exists>u v. c # cs = u @ v \<and> remainders r v \<noteq> []"
    then obtain u v where uv: "c # cs = u @ v" "remainders r v \<noteq> []" by auto
    show "found_in r (c # cs)"
    proof (cases u)
      case Nil
      then have "v = c # cs" using uv(1) by simp
      then show ?thesis using uv(2) by simp
    next
      case (Cons a w)
      then have "cs = w @ v" using uv(1) by simp
      then have "found_in r cs" using IH uv(2) by blast
      then show ?thesis by simp
    qed
  qed
qed

lemma found_in_literal: "found_in (literal s) t \<longleftrightarrow> (\<exists>u v. t = u @ s @ v)"
proof -
  have "found_in (literal s) t \<longleftrightarrow> (\<exists>u w. t = u @ w \<and> starts_with s w)"
    by (auto simp: found_in_iff remainders_literal)
  also have "\<dots> \<longleftrightarrow> (\<exists>u v. t = u @ s @ v)"
    by (auto simp: starts_with_iff)
  finally show ?thesis .
qed

lemma lower_regex_literal: "lower_regex (literal s) = literal (map lower_char s)"
  by (induction s) auto

lemma text_matches_substring:
  "text_matches (Regex (literal s) True) t \<longleftrightarrow>
     (\<exists>u v. map lower_char t = u @ map lower_char s @ v)"
  by (simp add: lower_regex_literal found_in_literal)

text \<open>
  C4: for every document, handle and pattern, \<open>findByText\<close> fails with
  \<open>NotFoundError\<close> exactly when no node matches, fails with \<open>AmbiguousMatchError\<close>
  exactly when more than one node matches, and returns the matching node exactly when
  there is one. An exact pattern matches the text equal to it; a literal with the flag
  that ignores case matches the texts that contain it, case ignored.
\<close>

theorem findByText_cases:
  "(findByText p h d = Inl NotFoundError \<longleftrightarrow> length (matching_nodes p h d) = 0) \<and>
   (findByText p h d = Inl AmbiguousMatchError \<longleftrightarrow> 1 < length (matching_nodes p h d)) \<and>
   ((\<exists>n. findByText p h d = Inr n \<and> matching_nodes p h d = [n]) \<longleftrightarrow>
      length (matching_nodes p h d) = 1) \<and>
   (text_matches (Exact s) t \<longleftrightarrow> t = s) \<and>
   (text_matches (Regex (literal s) True) t \<longleftrightarrow>
      (\<exists>u v. map lower_char t = u @ map lower_char s @ v))"
proof -
  have "findByText p h d = Inl NotFoundError \<longleftrightarrow> length (matching_nodes p h d) = 0"
    by (auto simp: findByText_def split: list.splits)
  moreover have "findByText p h d = Inl AmbiguousMatchError \<longleftrightarrow> 1 < length (matching_nodes p h d)"
    by (auto simp: findByText_def split: list.splits)
  moreover have "(\<exists>n. findByText p h d = Inr n \<and> matching_nodes p h d = [n]) \<longleftrightarrow>
      length (matching_nodes p h d) = 1"
    by (auto simp: findByText_def split: list.splits)
  moreover have "text_matches (Exact s) t \<longleftrightarrow> t = s"
    by simp
  ultimately show ?thesis
    using text_matches_substring [of s t] by blast
qed

section \<open>Mounting and unmounting\<close>

lemma mounted_unmount: "mounted (unmount h d) = filter (\<lambda>e. fst e \<noteq> h) (mounted d)"
  by (simp add: unmount_def)

lemma mounted_fold_unmount:
  "mounted (fold unmount hs d) = filter (\<lambda>e. fst e \<notin> set hs) (mounted d)"
proof (induction hs arbitrary: d)
  case Nil
  then show ?case by simp
next
  case (Cons h hs)
  have "mounted (fold unmount (h # hs) d) = filter (\<lambda>e. fst e \<notin> set hs) (mounted (unmount h d))"
    using Cons.IH [of "unmount h d"] by simp
  also have "\<dots> = filter (\<lambda>e. fst e \<notin> set (h # hs)) (mounted d)"
    by (auto simp: mounted_unmount intro: filter_cong)
  finally show ?case .
qed

lemma mounted_cleanup: "mounted (cleanup d) = []"
  by (simp add: cleanup_def mounted_fold_unmount filter_empty_conv)

lemma findByText_nothing_mounted: "mounted d = [] \<Longrightarrow> findByText p h d = Inl NotFoundError"
  by (simp add: findByText_def matching_nodes_def)

lemma run_test_snd: "snd (run_test t d) = cleanup (snd (t d))"
  by (simp add: run_test_def afterEach_hook_def split: prod.splits)

text \<open>
  C5: the hook runs after every test, whatever the test did and whether it passed or
  failed; after it no tree is mounted, and every text query, on every handle, fails with
  \<open>NotFoundError\<close>. The outcome of the test is unchanged.
\<close>

theorem query_after_hook:
  "findByText p h (snd (run_test t d)) = Inl NotFoundError \<and>
   mounted (snd (run_test t d)) = [] \<and>
   fst (run_test t d) = fst (t d)"
  by (simp add: run_test_snd mounted_cleanup findByText_nothing_mounted)
    (simp add: run_test_def split: prod.splits)

lemma nodes_of_unmount: "nodes_of h (filter (\<lambda>e. fst e \<noteq> h) es) = []"
  by (induction es) auto

text \<open>
  C7: unmounting a handle twice leaves the document as unmounting it once does; the
  second call finds nothing to detach and returns the document as it is, and the handle
  has no node left to query.
\<close>

theorem unmount_idempotent:
  "unmount h (unmount h d) = unmount h d \<and> nodes_of h (mounted (unmount h d)) = []"
  by (simp add: unmount_def nodes_of_unmount)

section \<open>The scenarios\<close>

lemma nodes_of_append: "nodes_of h (es @ fs) = nodes_of h es @ nodes_of h fs"
  by (induction es) auto

lemma nodes_of_fresh: "list_all (\<lambda>e. fst e < h) es \<Longrightarrow> nodes_of h es = []"
  by (induction es) auto

lemma nodes_of_mount:
  assumes "wf_document d" "mount j d = Inr (h, d')" "render_jsx j = Inr ns"
  shows "nodes_of h (mounted d') = elements_list ns"
proof -
  have h: "h = next_handle d" and d': "mounted d' = mounted d @ [(next_handle d, ns)]"
    using assms(2,3) by (auto simp: mount_def)
  have "nodes_of (next_handle d) (mounted d) = []"
    using assms(1) by (simp add: wf_document_def nodes_of_fresh)
  then show ?thesis by (simp add: h d' nodes_of_append)
qed

lemma mount_ok: "render_jsx j = Inr ns \<Longrightarrow> \<exists>h d'. mount j d = Inr (h, d')"
  by (simp add: mount_def)

lemma wf_empty_document: "wf_document empty_document"
  by (simp add: wf_document_def empty_document_def)

lemma greeting_regex_Alice:
  "text_matches (Regex (greeting_regex ''Alice'') False) ''Hello Alice!''"
  by (simp add: greeting_regex_def)

text \<open>
  C8: in the tree rendered with the name Alice, the query for a text matching
  \<open>/Hello,? Alice!/\<close> has exactly one match, and the query for the text \<open>Bob\<close> fails
  with \<open>NotFoundError\<close>.
\<close>

theorem Alice_scenario:
  assumes "wf_document d" "p ''name'' = Some (Str ''Alice'')"
  shows "\<exists>h d' n. mount (HelloPerson p) d = Inr (h, d') \<and>
           matching_nodes (Regex (greeting_regex ''Alice'') False) h d' = [n] \<and>
           findByText (Regex (greeting_regex ''Alice'') False) h d' = Inr n \<and>
           findByText (Exact ''Bob'') h d' = Inl NotFoundError"
proof -
  let ?t = "Element ''h1'' [Text ''Hello '', Text ''Alice'', Text ''!'']"
  have r: "render_jsx (HelloPerson p) = Inr [?t]"
    using assms(2) by (simp add: render_HelloPerson_Str)
  then obtain h d' where m: "mount (HelloPerson p) d = Inr (h, d')"
    using mount_ok by blast
  have ns: "nodes_of h (mounted d') = [?t]"
    using nodes_of_mount [OF assms(1) m r] by simp
  have a: "matching_nodes (Regex (greeting_regex ''Alice'') False) h d' = [?t]"
    using greeting_regex_Alice by (simp add: matching_nodes_def ns)
  have b: "matching_nodes (Exact ''Bob'') h d' = []"
    by (simp add: matching_nodes_def ns)
  show ?thesis
    using m a b by (simp add: findByText_def)
qed

theorem Alice_scenario_witness:
  "\<exists>h d' n. mount (HelloPerson (Map.empty(''name'' \<mapsto> Str ''Alice''))) empty_document = Inr (h, d') \<and>
           matching_nodes (Regex (greeting_regex ''Alice'') False) h d' = [n] \<and>
           findByText (Regex (greeting_regex ''Alice'') False) h d' = Inr n \<and>
           findByText (Exact ''Bob'') h d' = Inl NotFoundError"
  using Alice_scenario [of empty_document "Map.empty(''name'' \<mapsto> Str ''Alice'')"] wf_empty_document
  by simp

text \<open>The test of HelloWorld passes on the component of the sources.\<close>

lemma HelloWorld_test_passes:
  assumes "wf_document d"
  shows "fst (should_render_Hello_World d) = Passed"
proof -
  let ?t = "Element ''h1'' [Text ''Hello World!'']"
  have r: "render_jsx (HelloWorld Map.empty) = Inr [?t]" by (simp add: HelloWorld_def)
  then obtain h d' where m: "mount (HelloWorld Map.empty) d = Inr (h, d')"
    using mount_ok by blast
  have ns: "nodes_of h (mounted d') = [?t]"
    using nodes_of_mount [OF assms m r] by simp
  have "matching_nodes (Exact ''Hello World!'') h d' = [?t]"
    by (simp add: matching_nodes_def ns)
  then show ?thesis using m by (simp add: should_render_Hello_World_def findByText_def)
qed


end
